theory Spec2Isabelle
  imports Main "HOL-Library.Sublist"
begin

section \<open>The scraper of hotel opinions (scrap\_data.py)\<close>

text \<open>
  The crawler fetches a catalog page, rewrites the links of its carousel into the addresses
  of review listings, walks the pages of each listing and writes what it collected as one
  JSON document. The model below follows \<^verbatim>\<open>src/scrap_data.py\<close> function by function.
  Python exceptions are values of \<open>error\<close>, the HTTP exchange is an explicit record of the
  requests made so far, and the \<^verbatim>\<open>while\<close> loop of the pagination walk, which need
  not end, is a partial function whose value \<open>None\<close> stands for a walk that never returns.
\<close>

subsection \<open>Python strings\<close>

text \<open>\<^verbatim>\<open>s.split(c)\<close> for a separator of one character: one more segment than separators.\<close>

fun split_on :: "char \<Rightarrow> string \<Rightarrow> string list" where
  "split_on c [] = [[]]"
| "split_on c (x # xs) =
     (if x = c then [] # split_on c xs
      else (case split_on c xs of [] \<Rightarrow> [[x]] | p # ps \<Rightarrow> (x # p) # ps))"

text \<open>\<^verbatim>\<open>sep.join(parts)\<close>.\<close>

fun join :: "string \<Rightarrow> string list \<Rightarrow> string" where
  "join sep [] = []"
| "join sep [p] = p"
| "join sep (p # q # ps) = p @ sep @ join sep (q # ps)"

text \<open>
  \<^verbatim>\<open>s.rfind(c)\<close>: the highest index of \<open>c\<close> in \<open>s\<close>, and \<open>-1\<close> when there is none.
  The scan keeps the index it is at and the last index where it saw \<open>c\<close>.
\<close>

fun rfind_from :: "string \<Rightarrow> char \<Rightarrow> int \<Rightarrow> int \<Rightarrow> int" where
  "rfind_from [] c i found = found"
| "rfind_from (x # xs) c i found = rfind_from xs c (i + 1) (if x = c then i else found)"

definition rfind :: "string \<Rightarrow> char \<Rightarrow> int" where
  "rfind s c = rfind_from s c 0 (- 1)"

text \<open>The slices \<^verbatim>\<open>s[:i]\<close> and \<^verbatim>\<open>s[i:]\<close>; a negative index counts from the end.\<close>

definition slice_to :: "string \<Rightarrow> int \<Rightarrow> string" where
  "slice_to s i = (if i < 0 then take (nat (int (length s) + i)) s else take (nat i) s)"

definition slice_from :: "string \<Rightarrow> int \<Rightarrow> string" where
  "slice_from s i = (if i < 0 then drop (nat (int (length s) + i)) s else drop (nat i) s)"

text \<open>
  \<^verbatim>\<open>s.strip()\<close> removes leading and trailing whitespace. Characters are bytes here, so the
  whitespace is the ASCII part of what Python strips: tab, line feed, vertical tab, form feed,
  carriage return, the four separators \<open>0x1C\<close> to \<open>0x1F\<close>, and the space.
\<close>

definition isspace :: "char \<Rightarrow> bool" where
  "isspace c = (of_char c \<in> {9::nat, 10, 11, 12, 13, 28, 29, 30, 31, 32})"

definition strip :: "string \<Rightarrow> string" where
  "strip s = rev (dropWhile isspace (rev (dropWhile isspace s)))"

subsection \<open>The parsed document\<close>

text \<open>
  \<^verbatim>\<open>BeautifulSoup(response.text, "html.parser")\<close> hands the scraper a tree. A node is a
  string of text or a tag, and of a tag the scraper reads four things: its name, the list of
  its classes, its \<^verbatim>\<open>href\<close> attribute (\<open>None\<close> when the tag has none, which is what
  \<^verbatim>\<open>tag.get("href")\<close> returns) and its contents. The document itself is the root tag.
\<close>

datatype node =
    NavigableString string
  | Tag (tag_name: string) (tag_class: "string list") (tag_href: "string option")
        (tag_contents: "node list")

text \<open>\<^verbatim>\<open>tag.descendants\<close>: every node below the tag, in document order.\<close>

fun descendants :: "node \<Rightarrow> node list" where
  "descendants (NavigableString s) = []"
| "descendants (Tag n cs h ks) = concat (map (\<lambda>k. k # descendants k) ks)"

text \<open>
  The match of \<^verbatim>\<open>find(name, class_=c)\<close>: a tag of that name that has \<open>c\<close> among its
  classes; without \<^verbatim>\<open>class_\<close> the name alone decides. Text never matches.
\<close>

fun matches :: "string \<Rightarrow> string option \<Rightarrow> node \<Rightarrow> bool" where
  "matches n c (NavigableString s) = False"
| "matches n None (Tag m cs h ks) = (m = n)"
| "matches n (Some c) (Tag m cs h ks) = (m = n \<and> c \<in> set cs)"

definition find_all :: "node \<Rightarrow> string \<Rightarrow> string option \<Rightarrow> node list" where
  "find_all t n c = filter (matches n c) (descendants t)"

text \<open>\<^verbatim>\<open>find\<close> is the first result of \<^verbatim>\<open>find_all\<close>, or \<open>None\<close>.\<close>

definition find_tag :: "node \<Rightarrow> string \<Rightarrow> string option \<Rightarrow> node option" where
  "find_tag t n c = (case find_all t n c of [] \<Rightarrow> None | r # rs \<Rightarrow> Some r)"

text \<open>
  \<^verbatim>\<open>tag.get_text(strip=True)\<close>: every string below the tag is stripped, the empty ones are
  dropped, and the rest are joined with nothing between them.
\<close>

fun all_strings :: "node list \<Rightarrow> string list" where
  "all_strings [] = []"
| "all_strings (NavigableString s # ks) =
     (if strip s = [] then all_strings ks else strip s # all_strings ks)"
| "all_strings (Tag n cs h cts # ks) = all_strings ks"

definition get_text_strip :: "node \<Rightarrow> string" where
  "get_text_strip t = concat (all_strings (descendants t))"

subsection \<open>Errors\<close>

text \<open>
  The one exception the scraper can raise by itself: calling a method on \<open>None\<close>, when an
  anchor has no \<^verbatim>\<open>href\<close> or a next-page control has no anchor.
\<close>

datatype error = AttributeError

subsection \<open>parse\_hotel\_links\<close>

text \<open>
  Lines 56 to 59, the body of the loop over the anchors, for one \<^verbatim>\<open>href\<close>:
  \<^verbatim>\<open>
  parts = link.get("href").split("/")
  url = "https://www.wakacje.pl/opinie/hotele/" + "/".join(parts[3:])
  index_href = url.rfind("-")
  urls.append(url[: index_href + 1] + "h" + url[index_href + 1 :])
  \<close>
\<close>

definition opinie_prefix :: string where
  "opinie_prefix = ''https://www.wakacje.pl/opinie/hotele/''"

definition rewritten_url :: "string \<Rightarrow> string" where
  "rewritten_url href = opinie_prefix @ join ''/'' (drop 3 (split_on CHR ''/'' href))"

definition hotel_url_of :: "string \<Rightarrow> string" where
  "hotel_url_of href =
     (let url = rewritten_url href;
          index_href = rfind url CHR ''-''
      in slice_to url (index_href + 1) @ ''h'' @ slice_from url (index_href + 1))"

text \<open>
  \<^verbatim>\<open>link.get("href")\<close>: the attribute, or \<open>None\<close> when the tag has none. The loop itself
  raises on \<^verbatim>\<open>None.split\<close>, when an anchor has no \<^verbatim>\<open>href\<close>.
\<close>

fun get_href :: "node \<Rightarrow> string option" where
  "get_href (NavigableString s) = None"
| "get_href (Tag n cs h ks) = h"

fun hotel_links_loop :: "node list \<Rightarrow> string list \<Rightarrow> error + string list" where
  "hotel_links_loop [] urls = Inr urls"
| "hotel_links_loop (link # offer_links) urls =
     (case get_href link of
        None \<Rightarrow> Inl AttributeError
      | Some href \<Rightarrow> hotel_links_loop offer_links (urls @ [hotel_url_of href]))"

definition parse_hotel_links :: "node \<Rightarrow> error + string list" where
  "parse_hotel_links soup =
     (case find_tag soup ''div'' (Some ''swiper-wrapper'') of
        None \<Rightarrow> Inr []
      | Some frequently_rated \<Rightarrow> hotel_links_loop (find_all frequently_rated ''a'' None) [])"

subsection \<open>extract\_opinions\<close>

definition extract_opinions :: "node \<Rightarrow> string list" where
  "extract_opinions soup =
     (case find_tag soup ''div'' (Some ''opinions__list'') of
        None \<Rightarrow> []
      | Some opinions_list \<Rightarrow>
          map get_text_strip (find_all opinions_list ''p'' (Some ''opinion__attributes-content'')))"

subsection \<open>fetch\_page\<close>

text \<open>
  What \<^verbatim>\<open>session.get(url)\<close> can do: raise a \<^verbatim>\<open>RequestException\<close>, or return a response
  with a status code and a body, given here as the tree the parser makes of it. The site is
  a function of the number of requests made before and of the address asked, so that the same
  address may answer differently at different times. The session is the list of the
  addresses requested so far.
\<close>

datatype http_result = RequestException | Response nat node

type_synonym web = "nat \<Rightarrow> string \<Rightarrow> http_result"

text \<open>
  \<^verbatim>\<open>raise_for_status\<close> raises an \<^verbatim>\<open>HTTPError\<close>, which is a \<^verbatim>\<open>RequestException\<close>, for the
  status codes from 400 to 599. Both failures are caught and give \<open>None\<close>.
\<close>

definition fetch_page :: "web \<Rightarrow> string list \<Rightarrow> string \<Rightarrow> node option \<times> string list" where
  "fetch_page site session url =
     (case site (length session) url of
        RequestException \<Rightarrow> (None, session @ [url])
      | Response status_code body \<Rightarrow>
          if 400 \<le> status_code \<and> status_code < 600 then (None, session @ [url])
          else (Some body, session @ [url]))"

subsection \<open>scrape\_hotel\_opinions\<close>

text \<open>
  Line 120: \<^verbatim>\<open>"https://www.wakacje.pl" + str(next_page.find("a").get("href"))\<close>. Without an
  anchor \<^verbatim>\<open>find\<close> gives \<open>None\<close> and \<^verbatim>\<open>.get\<close> raises; an anchor without \<^verbatim>\<open>href\<close> gives
  \<^verbatim>\<open>str(None)\<close>, the text \<^verbatim>\<open>None\<close>.
\<close>

definition next_page_url :: "node \<Rightarrow> error + string" where
  "next_page_url next_page =
     (case find_tag next_page ''a'' None of
        None \<Rightarrow> Inl AttributeError
      | Some a \<Rightarrow>
          Inr (''https://www.wakacje.pl'' @
               (case get_href a of None \<Rightarrow> ''None'' | Some href \<Rightarrow> href)))"

definition find_next :: "node \<Rightarrow> node option" where
  "find_next soup = find_tag soup ''li'' (Some ''pagination__item--next'')"

text \<open>
  The loop of lines 119 to 126. The state is the session, the opinions collected and the
  next-page control of the page read last.
\<close>

partial_function (option) pagination_loop ::
  "web \<Rightarrow> node option \<Rightarrow> string list \<Rightarrow> string list \<Rightarrow>
   (error + string list \<times> string list) option" where
  "pagination_loop site next_page session opinions =
     (case next_page of
        None \<Rightarrow> Some (Inr (opinions, session))
      | Some np \<Rightarrow>
          (case next_page_url np of
             Inl e \<Rightarrow> Some (Inl e)
           | Inr url \<Rightarrow>
               (case fst (fetch_page site session url) of
                  None \<Rightarrow> Some (Inr (opinions, snd (fetch_page site session url)))
                | Some soup \<Rightarrow>
                    pagination_loop site (find_next soup) (snd (fetch_page site session url))
                      (opinions @ extract_opinions soup))))"

declare pagination_loop.simps [code]

text \<open>The function: the first fetch, and then the loop.\<close>

definition scrape_hotel_opinions ::
  "web \<Rightarrow> string list \<Rightarrow> string \<Rightarrow> (error + string list \<times> string list) option" where
  "scrape_hotel_opinions site session url =
     (case fst (fetch_page site session url) of
        None \<Rightarrow> Some (Inr ([], snd (fetch_page site session url)))
      | Some soup \<Rightarrow>
          pagination_loop site (find_next soup) (snd (fetch_page site session url))
            (extract_opinions soup))"

subsection \<open>main\<close>

record hotel_result =
  hotel_url :: string
  opinions :: "string list"

text \<open>
  What a run that returns leaves behind: the data dumped into
  \<^verbatim>\<open>results/1_opinions.json\<close> and the requests it made. A run that raises leaves no file:
  the dump is the statement after the crawl.
\<close>

record outcome =
  json_file :: "hotel_result list"
  requested :: "string list"

text \<open>The loop of lines 139 to 141.\<close>

fun hotels_loop ::
  "web \<Rightarrow> string list \<Rightarrow> string list \<Rightarrow> hotel_result list \<Rightarrow>
   (error + hotel_result list \<times> string list) option" where
  "hotels_loop site session [] data = Some (Inr (data, session))"
| "hotels_loop site session (url # hotel_urls) data =
     (case scrape_hotel_opinions site session url of
        None \<Rightarrow> None
      | Some (Inl e) \<Rightarrow> Some (Inl e)
      | Some (Inr (ops, session')) \<Rightarrow>
          hotels_loop site session' hotel_urls
            (data @ [\<lparr>hotel_url = url, opinions = ops\<rparr>]))"

definition main_url :: string where
  "main_url = ''https://www.wakacje.pl/hotele/''"

definition main :: "web \<Rightarrow> (error + outcome) option" where
  "main site =
     (case fst (fetch_page site [] main_url) of
        None \<Rightarrow> Some (Inr \<lparr>json_file = [], requested = snd (fetch_page site [] main_url)\<rparr>)
      | Some soup \<Rightarrow>
          (case parse_hotel_links soup of
             Inl e \<Rightarrow> Some (Inl e)
           | Inr hotel_urls \<Rightarrow>
               (case hotels_loop site (snd (fetch_page site [] main_url)) hotel_urls [] of
                  None \<Rightarrow> None
                | Some (Inl e) \<Rightarrow> Some (Inl e)
                | Some (Inr (data, session)) \<Rightarrow>
                    Some (Inr \<lparr>json_file = data, requested = session\<rparr>))))"

subsection \<open>Walks and sites to state the properties on\<close>

text \<open>
  The address that a page names as its successor: \<open>None\<close> when the page has no next-page
  control, and otherwise what line 120 makes of the control.
\<close>

definition next_link :: "node \<Rightarrow> (error + string) option" where
  "next_link soup = map_option next_page_url (find_next soup)"

text \<open>
  \<open>follows site session steps\<close>: from the session given, the site answers the requests for the
  addresses of \<open>steps\<close>, one after the other, with the pages of \<open>steps\<close>, and each address but
  the first is the one that the page before names as its successor.
\<close>

fun follows :: "web \<Rightarrow> string list \<Rightarrow> (string \<times> node) list \<Rightarrow> bool" where
  "follows site session [] = True"
| "follows site session [(url, soup)] = (fst (fetch_page site session url) = Some soup)"
| "follows site session ((url, soup) # (url', soup') # steps) =
     (fst (fetch_page site session url) = Some soup \<and>
      next_link soup = Some (Inr url') \<and>
      follows site (session @ [url]) ((url', soup') # steps))"



text \<open>
  Documents for the examples: a catalog whose carousel holds one anchor, and a page of
  a review listing with its opinions and, if there is one, the address of the next page.
\<close>

definition catalog_page :: "string option \<Rightarrow> node" where
  "catalog_page href =
     Tag ''[document]'' [] None
       [Tag ''div'' [''swiper-wrapper''] None [Tag ''a'' [] href []]]"

definition opinion_block :: "string \<Rightarrow> node" where
  "opinion_block txt = Tag ''p'' [''opinion__attributes-content''] None [NavigableString txt]"

definition review_page :: "string list \<Rightarrow> string option \<Rightarrow> node" where
  "review_page txts next_href =
     Tag ''[document]'' [] None
       (Tag ''div'' [''opinions__list''] None (map opinion_block txts) #
        (case next_href of
           None \<Rightarrow> []
         | Some href \<Rightarrow>
             [Tag ''li'' [''pagination__item--next''] None [Tag ''a'' [] (Some href) []]]))"

definition plain_page :: node where
  "plain_page = Tag ''[document]'' [] None [Tag ''div'' [''footer''] None [NavigableString ''wakacje'']]"

text \<open>
  A hotel of three pages, linked 1 to 2 to 3, and the site that serves them; the same hotel
  on a site where the second page cannot be fetched.
\<close>

definition page_1 :: node where
  "page_1 = review_page [''a'', ''b''] (Some ''/opinie/hotele/x-h1?page=2'')"

definition page_2 :: node where
  "page_2 = review_page [''c''] (Some ''/opinie/hotele/x-h1?page=3'')"

definition page_3 :: node where
  "page_3 = review_page [''d'', ''e''] None"

definition three_pages :: web where
  "three_pages n url =
     (if url = ''https://www.wakacje.pl/opinie/hotele/x-h1'' then Response 200 page_1
      else if url = ''https://www.wakacje.pl/opinie/hotele/x-h1?page=2'' then Response 200 page_2
      else if url = ''https://www.wakacje.pl/opinie/hotele/x-h1?page=3'' then Response 200 page_3
      else Response 404 plain_page)"

definition second_page_down :: web where
  "second_page_down n url =
     (if url = ''https://www.wakacje.pl/opinie/hotele/x-h1'' then Response 200 page_1
      else RequestException)"

text \<open>The scenario of one hotel with one page of two opinions.\<close>

definition grand_hotel_url :: string where
  "grand_hotel_url = ''https://www.wakacje.pl/opinie/hotele/123-grand-hhotel''"

definition grand_hotel :: web where
  "grand_hotel n url =
     (if url = main_url then Response 200 (catalog_page (Some ''/pl/offer/123-grand-hotel''))
      else if url = grand_hotel_url
        then Response 200 (review_page [''Great stay'', ''Would return''] None)
      else Response 404 plain_page)"




section \<open>Properties\<close>

subsection \<open>Strings\<close>

lemma rfind_from_notin: "c \<notin> set s \<Longrightarrow> rfind_from s c i found = found"
  by (induction s arbitrary: i found) auto

lemma rfind_from_last:
  "c \<notin> set b \<Longrightarrow> rfind_from (a @ c # b) c i found = i + int (length a)"
  by (induction a arbitrary: i found) (auto simp: rfind_from_notin)

lemma rfind_notin: "c \<notin> set s \<Longrightarrow> rfind s c = - 1"
  by (simp add: rfind_def rfind_from_notin)

lemma rfind_last: "c \<notin> set b \<Longrightarrow> rfind (a @ c # b) c = int (length a)"
  by (simp add: rfind_def rfind_from_last)





subsection \<open>The rewriting of one link\<close>


lemma hotel_url_of_no_dash:
  "CHR ''-'' \<notin> set (rewritten_url href) \<Longrightarrow> hotel_url_of href = CHR ''h'' # rewritten_url href"
  by (simp add: hotel_url_of_def rfind_notin slice_to_def slice_from_def)

lemma hotel_url_of_dash:
  assumes url: "rewritten_url href = p @ CHR ''-'' # b" and b: "CHR ''-'' \<notin> set b"
  shows "hotel_url_of href = p @ ''-h'' @ b"
proof -
  have idx: "rfind (rewritten_url href) CHR ''-'' = int (length p)"
    using b by (simp add: url rfind_last)
  have n: "nat (int (length p) + 1) = Suc (length p)" by simp
  show ?thesis
    unfolding hotel_url_of_def Let_def idx slice_to_def slice_from_def n
    by (simp add: url)
qed



subsection \<open>The loop over the anchors\<close>

lemma hotel_links_loop_hrefs:
  "map get_href links = map Some hrefs \<Longrightarrow>
   hotel_links_loop links urls = Inr (urls @ map hotel_url_of hrefs)"
proof (induction links arbitrary: urls hrefs)
  case Nil
  then show ?case by simp
next
  case (Cons link links)
  then obtain h hs where "hrefs = h # hs" by (cases hrefs) auto
  with Cons show ?case by simp
qed

lemma parse_hotel_links_hrefs:
  assumes "find_tag soup ''div'' (Some ''swiper-wrapper'') = Some frequently_rated"
    and "map get_href (find_all frequently_rated ''a'' None) = map Some hrefs"
  shows "parse_hotel_links soup = Inr (map hotel_url_of hrefs)"
  using assms by (simp add: parse_hotel_links_def hotel_links_loop_hrefs)

lemma find_tag_None: "find_tag t n c = None \<longleftrightarrow> \<not> (\<exists>k \<in> set (descendants t). matches n c k)"
proof -
  have "find_tag t n c = None \<longleftrightarrow> find_all t n c = []"
    by (simp add: find_tag_def split: list.splits)
  then show ?thesis by (simp add: find_all_def filter_empty_conv)
qed

subsection \<open>parse\_hotel\_links\<close>

lemma parse_hotel_links_nth:
  assumes "find_tag soup ''div'' (Some ''swiper-wrapper'') = Some frequently_rated"
    and "map get_href (find_all frequently_rated ''a'' None) = map Some hrefs"
    and "i < length hrefs"
  shows "\<exists>urls. parse_hotel_links soup = Inr urls \<and> length urls = length hrefs \<and>
           urls ! i = hotel_url_of (hrefs ! i)"
proof -
  have "parse_hotel_links soup = Inr (map hotel_url_of hrefs)"
    using assms(1,2) by (rule parse_hotel_links_hrefs)
  moreover have "map hotel_url_of hrefs ! i = hotel_url_of (hrefs ! i)"
    using assms(3) by simp
  ultimately show ?thesis by simp
qed

text \<open>
  Claim C1, as amended. Take an \<^verbatim>\<open>href\<close> of at least four segments whose remainder, the
  rejoined segments after the first three, contains a \<^verbatim>\<open>-\<close>. The URL that the loop of
  \<^verbatim>\<open>parse_hotel_links\<close> makes of it is the fixed prefix followed by the remainder with one
  \<^verbatim>\<open>h\<close> inserted right after the last \<^verbatim>\<open>-\<close> of the remainder; and when the carousel is
  found and all its anchors have an \<^verbatim>\<open>href\<close>, this URL is what \<^verbatim>\<open>parse_hotel_links\<close>
  returns at the position of the anchor.
\<close>

theorem parse_hotel_links_inserts_h:
  assumes "4 \<le> length (split_on CHR ''/'' href)"
    and "CHR ''-'' \<in> set (join ''/'' (drop 3 (split_on CHR ''/'' href)))"
  shows "\<exists>a b.
           join ''/'' (drop 3 (split_on CHR ''/'' href)) = a @ ''-'' @ b \<and>
           CHR ''-'' \<notin> set b \<and>
           hotel_url_of href = opinie_prefix @ a @ ''-h'' @ b \<and>
           (\<forall>soup frequently_rated hrefs i.
              find_tag soup ''div'' (Some ''swiper-wrapper'') = Some frequently_rated \<and>
              map get_href (find_all frequently_rated ''a'' None) = map Some hrefs \<and>
              i < length hrefs \<and> hrefs ! i = href \<longrightarrow>
              (\<exists>urls. parse_hotel_links soup = Inr urls \<and> length urls = length hrefs \<and>
                 urls ! i = opinie_prefix @ a @ ''-h'' @ b))"
proof -
  obtain a b where ab: "join ''/'' (drop 3 (split_on CHR ''/'' href)) = a @ CHR ''-'' # b"
    and b: "CHR ''-'' \<notin> set b"
    using split_list_last [OF assms(2)] by blast
  have "rewritten_url href = (opinie_prefix @ a) @ CHR ''-'' # b"
    by (simp add: rewritten_url_def ab)
  then have "hotel_url_of href = (opinie_prefix @ a) @ ''-h'' @ b"
    using b by (rule hotel_url_of_dash)
  then have url: "hotel_url_of href = opinie_prefix @ a @ ''-h'' @ b"
    by simp
  have "\<exists>urls. parse_hotel_links soup = Inr urls \<and> length urls = length hrefs \<and>
          urls ! i = opinie_prefix @ a @ ''-h'' @ b"
    if "find_tag soup ''div'' (Some ''swiper-wrapper'') = Some frequently_rated \<and>
        map get_href (find_all frequently_rated ''a'' None) = map Some hrefs \<and>
        i < length hrefs \<and> hrefs ! i = href"
    for soup frequently_rated hrefs i
    using parse_hotel_links_nth [of soup frequently_rated hrefs i] that url by auto
  with ab b url show ?thesis by auto
qed

text \<open>The theorem at the catalog whose carousel links \<^verbatim>\<open>/pl/offer/123-grand-hotel\<close>.\<close>

theorem parse_hotel_links_inserts_h_witness:
  "4 \<le> length (split_on CHR ''/'' ''/pl/offer/123-grand-hotel'') \<and>
   CHR ''-'' \<in> set (join ''/'' (drop 3 (split_on CHR ''/'' ''/pl/offer/123-grand-hotel''))) \<and>
   (\<exists>a b.
      join ''/'' (drop 3 (split_on CHR ''/'' ''/pl/offer/123-grand-hotel'')) = a @ ''-'' @ b \<and>
      CHR ''-'' \<notin> set b \<and>
      hotel_url_of ''/pl/offer/123-grand-hotel'' = opinie_prefix @ a @ ''-h'' @ b \<and>
      (\<exists>urls. parse_hotel_links (catalog_page (Some ''/pl/offer/123-grand-hotel'')) = Inr urls \<and>
         length urls = 1 \<and> urls ! 0 = opinie_prefix @ a @ ''-h'' @ b))"
proof -
  let ?href = "''/pl/offer/123-grand-hotel''"
  let ?div = "Tag ''div'' [''swiper-wrapper''] None [Tag ''a'' [] (Some ?href) []]"
  have 1: "find_tag (catalog_page (Some ?href)) ''div'' (Some ''swiper-wrapper'') = Some ?div"
    by code_simp
  have 2: "map get_href (find_all ?div ''a'' None) = map Some [?href]"
    by code_simp
  have 3: "4 \<le> length (split_on CHR ''/'' ?href)"
    by code_simp
  have 4: "CHR ''-'' \<in> set (join ''/'' (drop 3 (split_on CHR ''/'' ?href)))"
    by code_simp
  from parse_hotel_links_inserts_h [OF 3 4] obtain a b where
    ab: "join ''/'' (drop 3 (split_on CHR ''/'' ?href)) = a @ ''-'' @ b" "CHR ''-'' \<notin> set b"
      "hotel_url_of ?href = opinie_prefix @ a @ ''-h'' @ b"
    and all: "\<forall>soup frequently_rated hrefs i.
              find_tag soup ''div'' (Some ''swiper-wrapper'') = Some frequently_rated \<and>
              map get_href (find_all frequently_rated ''a'' None) = map Some hrefs \<and>
              i < length hrefs \<and> hrefs ! i = ?href \<longrightarrow>
              (\<exists>urls. parse_hotel_links soup = Inr urls \<and> length urls = length hrefs \<and>
                 urls ! i = opinie_prefix @ a @ ''-h'' @ b)"
    by blast
  have "\<exists>urls. parse_hotel_links (catalog_page (Some ?href)) = Inr urls \<and>
         length urls = 1 \<and> urls ! 0 = opinie_prefix @ a @ ''-h'' @ b"
    using all [rule_format, of "catalog_page (Some ?href)" ?div "[?href]" 0] 1 2 by simp
  with 3 4 ab show ?thesis by blast
qed

text \<open>
  Claim C1 as it is stated fails: \<^verbatim>\<open>/pl-PL/offer/hotel\<close> has four segments and a
  \<^verbatim>\<open>-\<close>, but the \<^verbatim>\<open>-\<close> is in a discarded segment, the rewritten URL has none, and the
  \<^verbatim>\<open>h\<close> lands in front of the prefix.
\<close>

theorem parse_hotel_links_dash_counterexample:
  "4 \<le> length (split_on CHR ''/'' ''/pl-PL/offer/hotel'') \<and>
   CHR ''-'' \<in> set ''/pl-PL/offer/hotel'' \<and>
   parse_hotel_links (catalog_page (Some ''/pl-PL/offer/hotel'')) =
     Inr [''hhttps://www.wakacje.pl/opinie/hotele/hotel''] \<and>
   \<not> prefix ''https://www.wakacje.pl/opinie/hotele/'' ''hhttps://www.wakacje.pl/opinie/hotele/hotel''"
  by code_simp

text \<open>
  Claim C7. For a catalog document in which no \<^verbatim>\<open>div\<close> carries the class
  \<^verbatim>\<open>swiper-wrapper\<close>, \<^verbatim>\<open>parse_hotel_links\<close> returns the empty list, as a result and not as
  an error.
\<close>

theorem parse_hotel_links_no_carousel:
  assumes "\<not> (\<exists>t \<in> set (descendants soup). matches ''div'' (Some ''swiper-wrapper'') t)"
  shows "parse_hotel_links soup = Inr []"
proof -
  have "find_tag soup ''div'' (Some ''swiper-wrapper'') = None"
    using assms by (simp add: find_tag_None)
  then show ?thesis by (simp add: parse_hotel_links_def)
qed

text \<open>The theorem at a page that has no carousel.\<close>

theorem parse_hotel_links_no_carousel_witness:
  "\<not> (\<exists>t \<in> set (descendants plain_page). matches ''div'' (Some ''swiper-wrapper'') t) \<and>
   parse_hotel_links plain_page = Inr []"
proof -
  have h: "\<not> (\<exists>t \<in> set (descendants plain_page). matches ''div'' (Some ''swiper-wrapper'') t)"
    by (simp add: plain_page_def)
  from parse_hotel_links_no_carousel [OF h] h show ?thesis by simp
qed

text \<open>
  Claim C10. For an \<^verbatim>\<open>href\<close> whose rewritten URL contains no \<^verbatim>\<open>-\<close>, \<^verbatim>\<open>rfind\<close> returns
  \<open>-1\<close> and the URL that the loop of \<^verbatim>\<open>parse_hotel_links\<close> makes is the letter \<^verbatim>\<open>h\<close>
  followed by the whole rewritten URL: it begins with
  \<^verbatim>\<open>hhttps://www.wakacje.pl/opinie/hotele/\<close>, and it is not the rewritten URL with an
  \<^verbatim>\<open>h\<close> appended. The link is not skipped: when the carousel is found and all its anchors
  have an \<^verbatim>\<open>href\<close>, \<^verbatim>\<open>parse_hotel_links\<close> returns one URL for every anchor, and this URL
  at the position of the anchor.
\<close>

theorem parse_hotel_links_no_dash_prepends_h:
  assumes "CHR ''-'' \<notin> set (rewritten_url href)"
  shows "rfind (rewritten_url href) CHR ''-'' = - 1 \<and>
         hotel_url_of href = ''h'' @ rewritten_url href \<and>
         hotel_url_of href \<noteq> rewritten_url href @ ''h'' \<and>
         prefix ''hhttps://www.wakacje.pl/opinie/hotele/'' (hotel_url_of href) \<and>
         (\<forall>soup frequently_rated hrefs i.
            find_tag soup ''div'' (Some ''swiper-wrapper'') = Some frequently_rated \<and>
            map get_href (find_all frequently_rated ''a'' None) = map Some hrefs \<and>
            i < length hrefs \<and> hrefs ! i = href \<longrightarrow>
            (\<exists>urls. parse_hotel_links soup = Inr urls \<and> length urls = length hrefs \<and>
               urls ! i = ''h'' @ rewritten_url href))"
proof -
  have r: "rfind (rewritten_url href) CHR ''-'' = - 1"
    using assms by (rule rfind_notin)
  have u: "hotel_url_of href = ''h'' @ rewritten_url href"
    using assms by (simp add: hotel_url_of_no_dash)
  have n: "''h'' @ rewritten_url href \<noteq> rewritten_url href @ ''h''"
    by (simp add: rewritten_url_def opinie_prefix_def)
  have p: "prefix ''hhttps://www.wakacje.pl/opinie/hotele/'' (''h'' @ rewritten_url href)"
    by (simp add: rewritten_url_def opinie_prefix_def)
  have "\<exists>urls. parse_hotel_links soup = Inr urls \<and> length urls = length hrefs \<and>
          urls ! i = ''h'' @ rewritten_url href"
    if "find_tag soup ''div'' (Some ''swiper-wrapper'') = Some frequently_rated \<and>
        map get_href (find_all frequently_rated ''a'' None) = map Some hrefs \<and>
        i < length hrefs \<and> hrefs ! i = href"
    for soup frequently_rated hrefs i
    using parse_hotel_links_nth [of soup frequently_rated hrefs i] that u by auto
  with r u n p show ?thesis by auto
qed

text \<open>The theorem at the catalog whose carousel links \<^verbatim>\<open>/pl/offer/hotel\<close>.\<close>

theorem parse_hotel_links_no_dash_prepends_h_witness:
  "CHR ''-'' \<notin> set (rewritten_url ''/pl/offer/hotel'') \<and>
   rfind (rewritten_url ''/pl/offer/hotel'') CHR ''-'' = - 1 \<and>
   hotel_url_of ''/pl/offer/hotel'' = ''hhttps://www.wakacje.pl/opinie/hotele/hotel'' \<and>
   (\<exists>urls. parse_hotel_links (catalog_page (Some ''/pl/offer/hotel'')) = Inr urls \<and>
      length urls = 1 \<and> urls ! 0 = ''hhttps://www.wakacje.pl/opinie/hotele/hotel'')"
proof -
  let ?href = "''/pl/offer/hotel''"
  let ?div = "Tag ''div'' [''swiper-wrapper''] None [Tag ''a'' [] (Some ?href) []]"
  have 1: "find_tag (catalog_page (Some ?href)) ''div'' (Some ''swiper-wrapper'') = Some ?div"
    by code_simp
  have 2: "map get_href (find_all ?div ''a'' None) = map Some [?href]"
    by code_simp
  have 3: "CHR ''-'' \<notin> set (rewritten_url ?href)"
    by code_simp
  have 4: "rewritten_url ?href = ''https://www.wakacje.pl/opinie/hotele/hotel''"
    by code_simp
  note inst = parse_hotel_links_no_dash_prepends_h [OF 3]
  from inst have r: "rfind (rewritten_url ?href) CHR ''-'' = - 1" by (rule conjunct1)
  from inst have u: "hotel_url_of ?href = ''h'' @ rewritten_url ?href" by blast
  from inst have all: "\<forall>soup frequently_rated hrefs i.
            find_tag soup ''div'' (Some ''swiper-wrapper'') = Some frequently_rated \<and>
            map get_href (find_all frequently_rated ''a'' None) = map Some hrefs \<and>
            i < length hrefs \<and> hrefs ! i = ?href \<longrightarrow>
            (\<exists>urls. parse_hotel_links soup = Inr urls \<and> length urls = length hrefs \<and>
               urls ! i = ''h'' @ rewritten_url ?href)"
    by blast
  have "\<exists>urls. parse_hotel_links (catalog_page (Some ?href)) = Inr urls \<and>
      length urls = 1 \<and> urls ! 0 = ''h'' @ rewritten_url ?href"
    using all [rule_format, of "catalog_page (Some ?href)" ?div "[?href]" 0] 1 2 by simp
  with 3 r u show ?thesis by (simp add: 4)
qed




subsection \<open>Stripped text\<close>

lemma strip_decomp:
  "\<exists>a b. s = a @ strip s @ b \<and> (\<forall>c \<in> set a. isspace c) \<and> (\<forall>c \<in> set b. isspace c)"
proof -
  define m where "m = dropWhile isspace s"
  define t where "t = takeWhile isspace (rev m)"
  have "rev (t @ dropWhile isspace (rev m)) = rev (rev m)"
    unfolding t_def by (simp only: takeWhile_dropWhile_id)
  then have m: "m = strip s @ rev t"
    by (simp add: strip_def m_def)
  have "s = takeWhile isspace s @ m" by (simp add: m_def)
  with m have "s = takeWhile isspace s @ strip s @ rev t" by simp
  moreover have "\<forall>c \<in> set (takeWhile isspace s). isspace c"
    using set_takeWhileD by fastforce
  moreover have "\<forall>c \<in> set (rev t). isspace c"
    unfolding t_def using set_takeWhileD by fastforce
  ultimately show ?thesis by blast
qed

lemma strip_edges:
  assumes "strip s \<noteq> []"
  shows "\<not> isspace (hd (strip s)) \<and> \<not> isspace (last (strip s))"
proof -
  define m where "m = dropWhile isspace s"
  define r where "r = dropWhile isspace (rev m)"
  define t where "t = takeWhile isspace (rev m)"
  have s: "strip s = rev r" by (simp add: strip_def m_def r_def)
  with assms have rne: "r \<noteq> []" by simp
  then have 1: "\<not> isspace (hd r)" unfolding r_def by (rule hd_dropWhile)
  have "last (strip s) = hd r" using rne by (simp add: s last_rev)
  with 1 have l: "\<not> isspace (last (strip s))" by simp
  have "rev (t @ r) = rev (rev m)"
    unfolding t_def r_def by (simp only: takeWhile_dropWhile_id)
  then have mm: "m = rev r @ rev t" by simp
  have "m \<noteq> []" using mm rne by simp
  then have "\<not> isspace (hd m)" unfolding m_def by (rule hd_dropWhile)
  moreover have "hd m = hd (rev r)" using mm rne by simp
  ultimately show ?thesis using l s by simp
qed


subsection \<open>extract\_opinions\<close>



subsection \<open>The pagination walk\<close>

lemma snd_fetch_page: "snd (fetch_page site session url) = session @ [url]"
  by (simp add: fetch_page_def split: http_result.splits)

lemma follows_first:
  "follows site session ((url, soup) # steps) \<Longrightarrow> fst (fetch_page site session url) = Some soup"
  by (cases steps) auto

lemma pagination_loop_None:
  "pagination_loop site None session ops = Some (Inr (ops, session))"
  by (subst pagination_loop.simps) simp

lemma pagination_loop_fetch_error:
  assumes "next_link soup = Some (Inr url)"
    and "fst (fetch_page site session url) = None"
  shows "pagination_loop site (find_next soup) session ops =
         Some (Inr (ops, session @ [url]))"
proof -
  from assms(1) obtain np where np: "find_next soup = Some np" "next_page_url np = Inr url"
    by (auto simp: next_link_def)
  show ?thesis
    by (subst pagination_loop.simps) (simp add: np assms(2) snd_fetch_page)
qed

lemma pagination_loop_step:
  assumes "next_link soup = Some (Inr url)"
    and "fst (fetch_page site session url) = Some soup'"
  shows "pagination_loop site (find_next soup) session ops =
         pagination_loop site (find_next soup') (session @ [url])
           (ops @ extract_opinions soup')"
proof -
  from assms(1) obtain np where np: "find_next soup = Some np" "next_page_url np = Inr url"
    by (auto simp: next_link_def)
  show ?thesis
    by (subst pagination_loop.simps) (simp add: np assms(2) snd_fetch_page)
qed

lemma pagination_loop_follows:
  "follows site session ((url, soup) # steps) \<Longrightarrow>
   pagination_loop site (find_next soup) (session @ [url]) ops =
   pagination_loop site (find_next (snd (last ((url, soup) # steps))))
     (session @ url # map fst steps)
     (ops @ concat (map (\<lambda>step. extract_opinions (snd step)) steps))"
proof (induction steps arbitrary: url soup session ops)
  case Nil
  then show ?case by simp
next
  case (Cons step steps)
  obtain url' soup' where step: "step = (url', soup')" by (cases step)
  from Cons.prems have link: "next_link soup = Some (Inr url')"
    and rest: "follows site (session @ [url]) ((url', soup') # steps)"
    by (simp_all add: step)
  from rest have "fst (fetch_page site (session @ [url]) url') = Some soup'"
    by (rule follows_first)
  with link have "pagination_loop site (find_next soup) (session @ [url]) ops =
      pagination_loop site (find_next soup') ((session @ [url]) @ [url'])
        (ops @ extract_opinions soup')"
    by (rule pagination_loop_step)
  also have "\<dots> = pagination_loop site (find_next (snd (last ((url', soup') # steps))))
      ((session @ [url]) @ url' # map fst steps)
      ((ops @ extract_opinions soup') @
       concat (map (\<lambda>step. extract_opinions (snd step)) steps))"
    using rest by (rule Cons.IH)
  finally show ?case by (simp add: step)
qed

lemma scrape_hotel_opinions_follows:
  assumes "follows site session ((url, soup) # steps)"
  shows "scrape_hotel_opinions site session url =
         pagination_loop site (find_next (snd (last ((url, soup) # steps))))
           (session @ url # map fst steps)
           (concat (map (\<lambda>step. extract_opinions (snd step)) ((url, soup) # steps)))"
proof -
  have "fst (fetch_page site session url) = Some soup"
    using assms by (rule follows_first)
  then have "scrape_hotel_opinions site session url =
      pagination_loop site (find_next soup) (session @ [url]) (extract_opinions soup)"
    by (simp add: scrape_hotel_opinions_def snd_fetch_page)
  also have "\<dots> = pagination_loop site (find_next (snd (last ((url, soup) # steps))))
           (session @ url # map fst steps)
           (extract_opinions soup @ concat (map (\<lambda>step. extract_opinions (snd step)) steps))"
    using assms by (rule pagination_loop_follows)
  finally show ?thesis by simp
qed


text \<open>
  Claim C2. When the site serves three pages in a row, the first at the address given and
  each of the others at the address that the page before names as its successor, and the third
  page has no next-page control, \<^verbatim>\<open>scrape_hotel_opinions\<close> returns the opinions of the
  first page, then those of the second, then those of the third, and it makes exactly three
  requests: the address given, the successor named by the first page and the successor named
  by the second.
\<close>

theorem scrape_hotel_opinions_three_pages:
  assumes "follows site session [(url_1, soup_1), (url_2, soup_2), (url_3, soup_3)]"
    and "find_next soup_3 = None"
  shows "scrape_hotel_opinions site session url_1 =
           Some (Inr (extract_opinions soup_1 @ extract_opinions soup_2 @ extract_opinions soup_3,
                      session @ [url_1, url_2, url_3])) \<and>
         next_link soup_1 = Some (Inr url_2) \<and> next_link soup_2 = Some (Inr url_3)"
proof -
  have "scrape_hotel_opinions site session url_1 =
      pagination_loop site (find_next (snd (last [(url_1, soup_1), (url_2, soup_2), (url_3, soup_3)])))
        (session @ url_1 # map fst [(url_2, soup_2), (url_3, soup_3)])
        (concat (map (\<lambda>step. extract_opinions (snd step))
           [(url_1, soup_1), (url_2, soup_2), (url_3, soup_3)]))"
    using assms(1) by (rule scrape_hotel_opinions_follows)
  then have "scrape_hotel_opinions site session url_1 =
           Some (Inr (extract_opinions soup_1 @ extract_opinions soup_2 @ extract_opinions soup_3,
                      session @ [url_1, url_2, url_3]))"
    by (simp add: assms(2) pagination_loop_None)
  moreover from assms(1) have "next_link soup_1 = Some (Inr url_2)"
    and "next_link soup_2 = Some (Inr url_3)"
    by simp_all
  ultimately show ?thesis by simp
qed

text \<open>The theorem at the hotel of three pages; its three addresses differ.\<close>

theorem scrape_hotel_opinions_three_pages_witness:
  "follows three_pages []
     [(''https://www.wakacje.pl/opinie/hotele/x-h1'', page_1),
      (''https://www.wakacje.pl/opinie/hotele/x-h1?page=2'', page_2),
      (''https://www.wakacje.pl/opinie/hotele/x-h1?page=3'', page_3)] \<and>
   find_next page_3 = None \<and>
   scrape_hotel_opinions three_pages [] ''https://www.wakacje.pl/opinie/hotele/x-h1'' =
     Some (Inr ([''a'', ''b'', ''c'', ''d'', ''e''],
                [''https://www.wakacje.pl/opinie/hotele/x-h1'',
                 ''https://www.wakacje.pl/opinie/hotele/x-h1?page=2'',
                 ''https://www.wakacje.pl/opinie/hotele/x-h1?page=3'']))"
proof -
  have 1: "follows three_pages []
     [(''https://www.wakacje.pl/opinie/hotele/x-h1'', page_1),
      (''https://www.wakacje.pl/opinie/hotele/x-h1?page=2'', page_2),
      (''https://www.wakacje.pl/opinie/hotele/x-h1?page=3'', page_3)]"
    by code_simp
  have 2: "find_next page_3 = None"
    by code_simp
  have 3: "extract_opinions page_1 @ extract_opinions page_2 @ extract_opinions page_3 =
      [''a'', ''b'', ''c'', ''d'', ''e'']"
    by code_simp
  from scrape_hotel_opinions_three_pages [OF 1 2] 1 2 3 show ?thesis by simp
qed

text \<open>
  Claim C3. When the site serves one page or more in a row, the last of them names a
  successor, and the fetch of that successor fails, \<^verbatim>\<open>scrape_hotel_opinions\<close> returns, as a
  result and not as an error, the opinions of the pages served, in the order of the pages.
\<close>

theorem scrape_hotel_opinions_fetch_error:
  assumes "follows site session ((url, soup) # steps)"
    and "next_link (snd (last ((url, soup) # steps))) = Some (Inr next_url)"
    and "fst (fetch_page site (session @ url # map fst steps) next_url) = None"
  shows "scrape_hotel_opinions site session url =
           Some (Inr (concat (map (\<lambda>step. extract_opinions (snd step)) ((url, soup) # steps)),
                      session @ url # map fst steps @ [next_url]))"
proof -
  have "scrape_hotel_opinions site session url =
         pagination_loop site (find_next (snd (last ((url, soup) # steps))))
           (session @ url # map fst steps)
           (concat (map (\<lambda>step. extract_opinions (snd step)) ((url, soup) # steps)))"
    using assms(1) by (rule scrape_hotel_opinions_follows)
  also have "\<dots> = Some (Inr (concat (map (\<lambda>step. extract_opinions (snd step)) ((url, soup) # steps)),
                      (session @ url # map fst steps) @ [next_url]))"
    using assms(2,3) by (rule pagination_loop_fetch_error)
  finally show ?thesis by simp
qed

text \<open>The theorem where the second fetch fails: the opinions of the first page are returned.\<close>

theorem scrape_hotel_opinions_fetch_error_witness:
  "follows second_page_down [] [(''https://www.wakacje.pl/opinie/hotele/x-h1'', page_1)] \<and>
   next_link page_1 = Some (Inr ''https://www.wakacje.pl/opinie/hotele/x-h1?page=2'') \<and>
   fst (fetch_page second_page_down [''https://www.wakacje.pl/opinie/hotele/x-h1'']
          ''https://www.wakacje.pl/opinie/hotele/x-h1?page=2'') = None \<and>
   extract_opinions page_1 = [''a'', ''b''] \<and>
   scrape_hotel_opinions second_page_down [] ''https://www.wakacje.pl/opinie/hotele/x-h1'' =
     Some (Inr ([''a'', ''b''],
                [''https://www.wakacje.pl/opinie/hotele/x-h1'',
                 ''https://www.wakacje.pl/opinie/hotele/x-h1?page=2'']))"
proof -
  let ?u = "''https://www.wakacje.pl/opinie/hotele/x-h1''"
  let ?v = "''https://www.wakacje.pl/opinie/hotele/x-h1?page=2''"
  have 1: "follows second_page_down [] ((?u, page_1) # [])"
    by code_simp
  have 2: "next_link (snd (last ((?u, page_1) # []))) = Some (Inr ?v)"
    by code_simp
  have 3: "fst (fetch_page second_page_down ([] @ ?u # map fst []) ?v) = None"
    by code_simp
  have 4: "extract_opinions page_1 = [''a'', ''b'']"
    by code_simp
  from scrape_hotel_opinions_fetch_error [OF 1 2 3] 1 2 3 4 show ?thesis by simp
qed

subsection \<open>The loop over the hotels\<close>





lemma main_hotels_loop:
  assumes "fst (fetch_page site [] main_url) = Some soup"
    and "parse_hotel_links soup = Inr hotel_urls"
  shows "main site =
     (case hotels_loop site [main_url] hotel_urls [] of
        None \<Rightarrow> None
      | Some (Inl e) \<Rightarrow> Some (Inl e)
      | Some (Inr (data, session)) \<Rightarrow> Some (Inr \<lparr>json_file = data, requested = session\<rparr>))"
  using assms by (simp add: main_def snd_fetch_page)


subsection \<open>Walks that return\<close>







subsection \<open>main\<close>





lemma find_next_review_page_None: "find_next (review_page txts None) = None"
proof -
  have "\<not> (\<exists>k \<in> set (descendants (review_page txts None)).
           matches ''li'' (Some ''pagination__item--next'') k)"
    by (auto simp: review_page_def opinion_block_def)
  then show ?thesis by (simp add: find_next_def find_tag_None)
qed






text \<open>
  Claim C5, as amended. The carousel link \<^verbatim>\<open>/pl/offer/123-grand-hotel\<close> is rewritten to
  \<^verbatim>\<open>https://www.wakacje.pl/opinie/hotele/123-grand-hhotel\<close>: the first three segments, the
  empty one, \<^verbatim>\<open>pl\<close> and \<^verbatim>\<open>offer\<close>, are discarded, and the \<^verbatim>\<open>h\<close> goes after the last
  \<^verbatim>\<open>-\<close>. On every site that serves this catalog and then, at the rewritten address, one
  page with the opinions \<^verbatim>\<open>Great stay\<close> and \<^verbatim>\<open>Would return\<close> and no next-page control,
  \<^verbatim>\<open>main\<close> writes one entry, with the rewritten address and these two opinions.
\<close>

theorem main_grand_hotel:
  assumes "fst (fetch_page site [] main_url) =
             Some (catalog_page (Some ''/pl/offer/123-grand-hotel''))"
    and "fst (fetch_page site [main_url] ''https://www.wakacje.pl/opinie/hotele/123-grand-hhotel'') =
           Some (review_page [''Great stay'', ''Would return''] None)"
  shows "parse_hotel_links (catalog_page (Some ''/pl/offer/123-grand-hotel'')) =
           Inr [''https://www.wakacje.pl/opinie/hotele/123-grand-hhotel''] \<and>
         main site =
           Some (Inr \<lparr>json_file =
                        [\<lparr>hotel_url = ''https://www.wakacje.pl/opinie/hotele/123-grand-hhotel'',
                          opinions = [''Great stay'', ''Would return'']\<rparr>],
                      requested =
                        [main_url, ''https://www.wakacje.pl/opinie/hotele/123-grand-hhotel'']\<rparr>)"
proof -
  let ?url = "''https://www.wakacje.pl/opinie/hotele/123-grand-hhotel''"
  let ?soup = "review_page [''Great stay'', ''Would return''] None"
  have links: "parse_hotel_links (catalog_page (Some ''/pl/offer/123-grand-hotel'')) = Inr [?url]"
    by code_simp
  have ops: "extract_opinions ?soup = [''Great stay'', ''Would return'']"
    by code_simp
  have "scrape_hotel_opinions site [main_url] ?url =
      pagination_loop site (find_next ?soup) ([main_url] @ [?url]) (extract_opinions ?soup)"
    by (simp add: scrape_hotel_opinions_def assms(2) snd_fetch_page)
  then have "scrape_hotel_opinions site [main_url] ?url =
      Some (Inr ([''Great stay'', ''Would return''], [main_url, ?url]))"
    by (simp add: find_next_review_page_None pagination_loop_None ops)
  then have "hotels_loop site [main_url] [?url] [] =
      Some (Inr ([\<lparr>hotel_url = ?url, opinions = [''Great stay'', ''Would return'']\<rparr>],
                 [main_url, ?url]))"
    by simp
  then have "main site =
      Some (Inr \<lparr>json_file = [\<lparr>hotel_url = ?url, opinions = [''Great stay'', ''Would return'']\<rparr>],
                 requested = [main_url, ?url]\<rparr>)"
    by (simp add: main_hotels_loop [OF assms(1) links])
  with links show ?thesis by simp
qed

text \<open>The theorem at the site of one hotel.\<close>

theorem main_grand_hotel_witness:
  "fst (fetch_page grand_hotel [] main_url) =
     Some (catalog_page (Some ''/pl/offer/123-grand-hotel'')) \<and>
   fst (fetch_page grand_hotel [main_url] ''https://www.wakacje.pl/opinie/hotele/123-grand-hhotel'') =
     Some (review_page [''Great stay'', ''Would return''] None) \<and>
   main grand_hotel =
     Some (Inr \<lparr>json_file =
                  [\<lparr>hotel_url = ''https://www.wakacje.pl/opinie/hotele/123-grand-hhotel'',
                    opinions = [''Great stay'', ''Would return'']\<rparr>],
                requested =
                  [main_url, ''https://www.wakacje.pl/opinie/hotele/123-grand-hhotel'']\<rparr>)"
proof -
  have 1: "fst (fetch_page grand_hotel [] main_url) =
     Some (catalog_page (Some ''/pl/offer/123-grand-hotel''))"
    by code_simp
  have 2: "fst (fetch_page grand_hotel [main_url]
        ''https://www.wakacje.pl/opinie/hotele/123-grand-hhotel'') =
     Some (review_page [''Great stay'', ''Would return''] None)"
    by code_simp
  from main_grand_hotel [OF 1 2] 1 2 show ?thesis by simp
qed

text \<open>
  Claim C5 as it is stated fails: the link is not rewritten to
  \<^verbatim>\<open>https://www.wakacje.pl/opinie/hotele/offer/123-hgrand-hotel\<close>, and the data written does
  not carry that address.
\<close>

theorem main_grand_hotel_counterexample:
  "parse_hotel_links (catalog_page (Some ''/pl/offer/123-grand-hotel'')) =
     Inr [''https://www.wakacje.pl/opinie/hotele/123-grand-hhotel''] \<and>
   parse_hotel_links (catalog_page (Some ''/pl/offer/123-grand-hotel'')) \<noteq>
     Inr [''https://www.wakacje.pl/opinie/hotele/offer/123-hgrand-hotel''] \<and>
   main grand_hotel \<noteq>
     Some (Inr \<lparr>json_file =
                  [\<lparr>hotel_url = ''https://www.wakacje.pl/opinie/hotele/offer/123-hgrand-hotel'',
                    opinions = [''Great stay'', ''Would return'']\<rparr>],
                requested =
                  [main_url, ''https://www.wakacje.pl/opinie/hotele/offer/123-hgrand-hotel'']\<rparr>)"
  by code_simp

end
